theory Spec2Isabelle
  imports Main "HOL-Library.AList"
begin

section \<open>The document\<close>

text \<open>
  \<^verbatim>\<open>ClientRenderer.ts\<close> reads and writes the browser document. The document is modelled
  as the list of its elements in document order, the order in which
  \<^verbatim>\<open>querySelectorAll\<close> and \<^verbatim>\<open>getElementsByClassName\<close> return them, and an element is
  referred to by its index in that list. Each element carries its nesting depth, so that
  the parent of an element is the nearest preceding element of smaller depth; every list
  is a forest this way, and the walk up the parents always ends.

  The fields are the ones the renderer touches: \<open>ident\<close> is the \<^verbatim>\<open>id\<close> attribute
  (\<open>id\<close> is a constant of HOL), \<open>attributes\<close> holds the remaining attributes,
  \<open>innerHTML\<close> is the markup last assigned to the element. An element that an
  assignment to \<^verbatim>\<open>innerHTML\<close> has removed from the document keeps its place in the list
  and is marked as not \<open>attached\<close>; the queries of the document pass over it. The
  elements that the browser parses out of an assigned markup string are not entered
  into the list: the renderer assigns markup to the chooser and to the right navigation
  only, the markup of the navigation holds \<^verbatim>\<open>ul\<close>, \<^verbatim>\<open>li\<close> and \<^verbatim>\<open>a\<close> elements, and the
  chooser's markup is taken to hold no heading, no toggleable element and none of the
  ids the renderer looks up.
\<close>

record element =
  tagName :: string
  ident :: string
  classList :: "string list"
  attributes :: "(string \<times> string) list"
  textContent :: string
  innerHTML :: string
  depth :: nat
  attached :: bool

type_synonym document = "element list"

definition getAttribute :: "element \<Rightarrow> string \<Rightarrow> string option" where
  "getAttribute e name = map_of (attributes e) name"

definition classList_contains :: "element \<Rightarrow> string \<Rightarrow> bool" where
  "classList_contains e c = (c \<in> set (classList e))"

definition classList_add :: "string \<Rightarrow> element \<Rightarrow> element" where
  "classList_add c e = (if c \<in> set (classList e) then e else e\<lparr>classList := classList e @ [c]\<rparr>)"

definition classList_remove :: "string \<Rightarrow> element \<Rightarrow> element" where
  "classList_remove c e = e\<lparr>classList := removeAll c (classList e)\<rparr>"

text \<open>\<open>parentBefore doc d n\<close> is the last index below \<open>n\<close> whose element is less deep than \<open>d\<close>.\<close>

fun parentBefore :: "document \<Rightarrow> nat \<Rightarrow> nat \<Rightarrow> nat option" where
  "parentBefore doc d 0 = None"
| "parentBefore doc d (Suc j) = (if depth (doc ! j) < d then Some j else parentBefore doc d j)"

definition parentElement :: "document \<Rightarrow> nat \<Rightarrow> nat option" where
  "parentElement doc i = parentBefore doc (depth (doc ! i)) i"

lemma parentBefore_less: "parentBefore doc d n = Some j \<Longrightarrow> j < n"
  by (induction n) (auto split: if_splits)

lemma parentElement_less: "parentElement doc i = Some p \<Longrightarrow> p < i"
  unfolding parentElement_def by (rule parentBefore_less)

definition getElementsByClassName :: "document \<Rightarrow> string \<Rightarrow> nat list" where
  "getElementsByClassName doc c =
     filter (\<lambda>i. attached (doc ! i) \<and> classList_contains (doc ! i) c) [0..<length doc]"

definition getElementById :: "document \<Rightarrow> string \<Rightarrow> nat option" where
  "getElementById doc x =
     List.find (\<lambda>i. attached (doc ! i) \<and> ident (doc ! i) = x) [0..<length doc]"

text \<open>
  \<^verbatim>\<open>element.innerHTML = html\<close>: the descendants of the element, which are the elements
  that follow it for as long as they are deeper than it, leave the document, and the
  element holds the new markup. An index beyond the list stands for an element that is
  not part of the document; an assignment to it does not show.
\<close>

fun detachDescendants :: "nat \<Rightarrow> element list \<Rightarrow> element list" where
  "detachDescendants d [] = []"
| "detachDescendants d (e # es) =
     (if depth e > d then e\<lparr>attached := False\<rparr> # detachDescendants d es else e # es)"

definition setInnerHTML :: "nat \<Rightarrow> string \<Rightarrow> document \<Rightarrow> document" where
  "setInnerHTML i html doc =
     (if i < length doc
      then take i doc @ [(doc ! i)\<lparr>innerHTML := html\<rparr>]
             @ detachDescendants (depth (doc ! i)) (drop (Suc i) doc)
      else doc)"

text \<open>The proper ancestors of an element, nearest first.\<close>

function ancestors :: "document \<Rightarrow> nat \<Rightarrow> nat list" where
  "ancestors doc i = (case parentElement doc i of None \<Rightarrow> [] | Some p \<Rightarrow> p # ancestors doc p)"
  by pat_completeness auto
termination
  by (relation "measure snd") (auto dest: parentElement_less)

declare ancestors.simps [simp del]

text \<open>
  \<^verbatim>\<open>document.querySelectorAll('#mainContent h2, ..., #mainContent h6')\<close>: the headings of
  level 2 to 6 that have an ancestor with the id \<^verbatim>\<open>mainContent\<close>, in document order. The
  DOM reports the tag name of an HTML element in upper case.
\<close>

definition headingTags :: "string list" where
  "headingTags = [''H2'', ''H3'', ''H4'', ''H5'', ''H6'']"

definition mainContentHeaders :: "document \<Rightarrow> nat list" where
  "mainContentHeaders doc =
     filter (\<lambda>i. attached (doc ! i) \<and> tagName (doc ! i) \<in> set headingTags
                \<and> (\<exists>a \<in> set (ancestors doc i). ident (doc ! a) = ''mainContent''))
       [0..<length doc]"

section \<open>The right navigation\<close>

text \<open>
  \<^verbatim>\<open>elementIsHidden\<close>: the loop starts at the element and follows \<^verbatim>\<open>parentElement\<close> until
  it finds the class \<^verbatim>\<open>markdoc__hidden\<close> or runs out of parents. Falling out of the loop
  returns \<^verbatim>\<open>undefined\<close>, which the caller's \<^verbatim>\<open>if\<close> reads as false.
\<close>

function elementIsHidden_loop :: "document \<Rightarrow> nat option \<Rightarrow> bool" where
  "elementIsHidden_loop doc None = False"
| "elementIsHidden_loop doc (Some currentElement) =
     (if classList_contains (doc ! currentElement) ''markdoc__hidden'' then True
      else elementIsHidden_loop doc (parentElement doc currentElement))"
  by pat_completeness auto
termination
  by (relation "measure (\<lambda>(doc, c). case c of None \<Rightarrow> 0 | Some i \<Rightarrow> Suc i)")
     (auto dest: parentElement_less split: option.splits)

definition elementIsHidden :: "document \<Rightarrow> nat \<Rightarrow> bool" where
  "elementIsHidden doc element = elementIsHidden_loop doc (Some element)"

text \<open>
  \<^verbatim>\<open>parseInt(header.tagName[1])\<close>: the selector admits the tags H2 to H6 only, so the
  character read is one of the digits 2 to 6, and its value is its code minus the code
  of \<^verbatim>\<open>0\<close>.
\<close>

definition headerLevel :: "element \<Rightarrow> nat" where
  "headerLevel header = of_char (tagName header ! 1) - 48"

definition navEntry :: "element \<Rightarrow> string" where
  "navEntry header =
     ''<li><a href=\"#'' @ ident header @ ''\">'' @ textContent header @ ''</a></li>''"

text \<open>
  The body of \<^verbatim>\<open>headers.forEach\<close> in \<^verbatim>\<open>populateRightNav\<close>, with the two variables it
  updates, \<^verbatim>\<open>lastSeenLevel\<close> and \<^verbatim>\<open>html\<close>, passed along. (The \<^verbatim>\<open>console.log\<close> of the
  header has no effect on the page.)
\<close>

fun populateRightNav_loop :: "document \<Rightarrow> nat list \<Rightarrow> nat \<Rightarrow> string \<Rightarrow> string" where
  "populateRightNav_loop doc [] lastSeenLevel html = html"
| "populateRightNav_loop doc (header # headers) lastSeenLevel html =
     (if elementIsHidden doc header then populateRightNav_loop doc headers lastSeenLevel html
      else
        let level = headerLevel (doc ! header);
            html1 = (if level > lastSeenLevel then html @ ''<ul>''
                     else if level < lastSeenLevel then html @ ''</ul>''
                     else html)
        in populateRightNav_loop doc headers level (html1 @ navEntry (doc ! header)))"

definition rightNavHtml :: "document \<Rightarrow> string" where
  "rightNavHtml doc = populateRightNav_loop doc (mainContentHeaders doc) 2 ''<ul>'' @ ''</ul>''"

text \<open>
  What a method throws. A throw leaves in place what the method had already written, so
  a result is either \<open>Inr\<close> of the state the method returns in, or \<open>Inl\<close> of the
  error together with the state at the throw. The first four errors are the four
  \<^verbatim>\<open>throw\<close> statements of the class; \<open>TypeError\<close> is a read of a field of \<^verbatim>\<open>undefined\<close>;
  \<open>UnresolvedVariable\<close> and \<open>Raised\<close> are errors of the collaborators.
\<close>

datatype error =
    CannotFindRightNav
  | NoRefOnToggleable
  | CannotFindChooser
  | CannotRerenderChooser
  | TypeError
  | UnresolvedVariable string
  | Raised string

type_synonym 's result = "(error \<times> 's) + 's"

section \<open>The renderer and its collaborators\<close>

text \<open>
  Of a \<^verbatim>\<open>ClientFunction\<close> (declared in \<^verbatim>\<open>markdoc-static-compiler/src/types\<close>) the renderer
  reads the field \<^verbatim>\<open>value\<close> only; the rest of the function node is kept as \<open>fn_rest\<close>.
  Of a resolved page preference it reads \<^verbatim>\<open>id\<close> and \<^verbatim>\<open>currentValue\<close>.
\<close>

record 'x clientFunction =
  fn_value :: bool
  fn_rest :: 'x

record resolvedPagePref =
  pref_id :: string
  currentValue :: string

text \<open>
  A \<^verbatim>\<open>Record<string, T>\<close> held by the renderer is an association list of its own
  properties in key order, with pairwise different keys: \<open>map_of\<close> reads an entry, and
  \<open>AList.update\<close> writes one, in place when the key is there and at the end when it is
  new. The renderer reads these records under their own keys only. The keys it writes
  are the preference and reference identifiers of the page data, none of them
  \<^verbatim>\<open>__proto__\<close>, the one key under which an assignment creates no property. The field
  \<open>document\<close> is the global \<^verbatim>\<open>document\<close>, which the methods read and write next to the
  fields of the instance.
\<close>

record ('oc, 'pc, 'x) clientRenderer =
  prefOptionsConfig :: "'oc option"
  pagePrefsConfig :: "'pc option"
  chooserElement :: "nat option"
  selectedValsByPrefId :: "(string \<times> string) list"
  ifFunctionsByRef :: "(string \<times> 'x clientFunction) list"
  document :: document

text \<open>
  The functions imported from \<^verbatim>\<open>./sharedRendering\<close>, \<^verbatim>\<open>./PageBuilder/components/Chooser\<close>,
  \<^verbatim>\<open>markdoc-static-compiler/src/reresolver\<close> and \<^verbatim>\<open>./dataCompression\<close> are parameters of
  the model. The resolver and the re-resolver may throw.
\<close>

record ('oc, 'pc, 'x, 'm) collaborators =
  resolveMinifiedPagePrefs ::
    "'pc \<Rightarrow> 'oc \<Rightarrow> (string \<times> string) list \<Rightarrow> error + (string \<times> resolvedPagePref) list"
  getChooserHtml :: "(string \<times> resolvedPagePref) list \<Rightarrow> string"
  reresolveFunctionNode ::
    "'x clientFunction \<Rightarrow> (string \<times> string) list \<Rightarrow> error + 'x clientFunction"
  expandClientFunction :: "'m \<Rightarrow> 'x clientFunction"

datatype eventTarget = NotAnElement | AnElement element

section \<open>The methods of the renderer\<close>

text \<open>
  \<^verbatim>\<open>populateRightNav\<close>: the markup is built first, then the container is looked up; when
  there is none the method throws and the document is as it was.
\<close>

definition populateRightNav ::
  "('oc, 'pc, 'x) clientRenderer \<Rightarrow> ('oc, 'pc, 'x) clientRenderer result" where
  "populateRightNav st =
     (let html = rightNavHtml (document st) in
      case getElementById (document st) ''TableOfContents'' of
        None \<Rightarrow> Inl (CannotFindRightNav, st)
      | Some rightNav \<Rightarrow>
          Inr (st\<lparr>document := setInnerHTML rightNav html (document st)\<rparr>))"

text \<open>
  \<^verbatim>\<open>newDisplayStatusByRef\<close> of \<^verbatim>\<open>rerenderPageContent\<close> starts as the plain object \<^verbatim>\<open>{}\<close> and is
  read under the \<^verbatim>\<open>data-if\<close> of the elements, whatever that string is. Its own
  properties are a map. An assignment of a boolean under \<^verbatim>\<open>__proto__\<close> creates no
  property. A read finds the own property, or else the property that a plain object
  inherits from \<^verbatim>\<open>Object.prototype\<close>: a function, or for \<^verbatim>\<open>__proto__\<close> the prototype
  itself, which is neither \<^verbatim>\<open>undefined\<close> nor falsy.
\<close>

definition objectPrototypeProperties :: "string list" where
  "objectPrototypeProperties =
     [''constructor'', ''__defineGetter__'', ''__defineSetter__'', ''hasOwnProperty'',
      ''__lookupGetter__'', ''__lookupSetter__'', ''isPrototypeOf'', ''propertyIsEnumerable'',
      ''toString'', ''valueOf'', ''__proto__'', ''toLocaleString'']"

datatype property = Undefined | OwnValue bool | Inherited

definition setDisplayStatus :: "(string \<rightharpoonup> bool) \<Rightarrow> string \<Rightarrow> bool \<Rightarrow> (string \<rightharpoonup> bool)" where
  "setDisplayStatus obj key v = (if key = ''__proto__'' then obj else obj(key \<mapsto> v))"

definition getDisplayStatus :: "(string \<rightharpoonup> bool) \<Rightarrow> string \<Rightarrow> property" where
  "getDisplayStatus obj key =
     (case obj key of
        Some v \<Rightarrow> OwnValue v
      | None \<Rightarrow> if key \<in> set objectPrototypeProperties then Inherited else Undefined)"

fun truthy :: "property \<Rightarrow> bool" where
  "truthy Undefined = False"
| "truthy (OwnValue v) = v"
| "truthy Inherited = True"

text \<open>
  The first loop of \<^verbatim>\<open>rerenderPageContent\<close>, over \<^verbatim>\<open>Object.keys(this.ifFunctionsByRef)\<close>:
  it replaces each function by the re-resolved one and records in
  \<^verbatim>\<open>newDisplayStatusByRef\<close> the references whose value changed. Reading \<^verbatim>\<open>value\<close> from a
  missing entry would be a \<^verbatim>\<open>TypeError\<close>.
\<close>

fun reresolve_loop ::
  "('x clientFunction \<Rightarrow> (string \<times> string) list \<Rightarrow> error + 'x clientFunction)
   \<Rightarrow> (string \<times> string) list \<Rightarrow> string list \<Rightarrow> (string \<times> 'x clientFunction) list \<Rightarrow> (string \<rightharpoonup> bool)
   \<Rightarrow> (error \<times> (string \<times> 'x clientFunction) list)
      + ((string \<times> 'x clientFunction) list \<times> (string \<rightharpoonup> bool))" where
  "reresolve_loop reresolve variables [] fns newDisplayStatusByRef = Inr (fns, newDisplayStatusByRef)"
| "reresolve_loop reresolve variables (ref # refs) fns newDisplayStatusByRef =
     (case map_of fns ref of
        None \<Rightarrow> Inl (TypeError, fns)
      | Some clientFunction \<Rightarrow>
          (let oldValue = fn_value clientFunction in
           case reresolve clientFunction variables of
             Inl e \<Rightarrow> Inl (e, fns)
           | Inr resolvedFunction \<Rightarrow>
               reresolve_loop reresolve variables refs (AList.update ref resolvedFunction fns)
                 (if oldValue \<noteq> fn_value resolvedFunction
                  then setDisplayStatus newDisplayStatusByRef ref (fn_value resolvedFunction)
                  else newDisplayStatusByRef)))"

text \<open>
  The second loop, over the elements of class \<^verbatim>\<open>markdoc__toggleable\<close>. The collection is
  taken once: the loop changes the class \<^verbatim>\<open>markdoc__hidden\<close> only, so the live collection
  keeps its members. \<^verbatim>\<open>!ref\<close> holds for \<^verbatim>\<open>null\<close> and for the empty string. The two tests
  of \<^verbatim>\<open>newDisplayStatusByRef[ref]\<close>, against \<^verbatim>\<open>undefined\<close> and for truth, are made of what
  the read finds, an inherited property included.
\<close>

fun toggle_loop :: "(string \<rightharpoonup> bool) \<Rightarrow> nat list \<Rightarrow> document \<Rightarrow> (error \<times> document) + document" where
  "toggle_loop newDisplayStatusByRef [] doc = Inr doc"
| "toggle_loop newDisplayStatusByRef (i # rest) doc =
     (let toggleable = doc ! i in
      case getAttribute toggleable ''data-if'' of
        None \<Rightarrow> Inl (NoRefOnToggleable, doc)
      | Some ref \<Rightarrow>
          if ref = [] then Inl (NoRefOnToggleable, doc)
          else if getDisplayStatus newDisplayStatusByRef ref = Undefined
          then toggle_loop newDisplayStatusByRef rest doc
          else if truthy (getDisplayStatus newDisplayStatusByRef ref)
          then toggle_loop newDisplayStatusByRef rest
                 (doc[i := classList_remove ''markdoc__hidden'' toggleable])
          else toggle_loop newDisplayStatusByRef rest
                 (doc[i := classList_add ''markdoc__hidden'' toggleable]))"

definition rerenderPageContent ::
  "('oc, 'pc, 'x, 'm) collaborators \<Rightarrow> ('oc, 'pc, 'x) clientRenderer
   \<Rightarrow> ('oc, 'pc, 'x) clientRenderer result" where
  "rerenderPageContent c st =
     (case reresolve_loop (reresolveFunctionNode c) (selectedValsByPrefId st)
             (map fst (ifFunctionsByRef st)) (ifFunctionsByRef st) Map.empty of
        Inl (e, fns) \<Rightarrow> Inl (e, st\<lparr>ifFunctionsByRef := fns\<rparr>)
      | Inr (fns, newDisplayStatusByRef) \<Rightarrow>
          (case toggle_loop newDisplayStatusByRef
                  (getElementsByClassName (document st) ''markdoc__toggleable'') (document st) of
             Inl (e, doc) \<Rightarrow> Inl (e, st\<lparr>ifFunctionsByRef := fns, document := doc\<rparr>)
           | Inr doc \<Rightarrow> Inr (st\<lparr>ifFunctionsByRef := fns, document := doc\<rparr>)))"

text \<open>
  \<^verbatim>\<open>rerenderChooser\<close>. The loop over \<^verbatim>\<open>Object.keys(resolvedPagePrefs)\<close> visits the entries
  of the resolver's result in order and writes the current value of each resolved
  preference into \<^verbatim>\<open>selectedValsByPrefId\<close>, under the preference's own \<^verbatim>\<open>id\<close>. The chooser
  element is an index into the document. \<^verbatim>\<open>addChooserEventListeners\<close> registers click listeners, which are not part
  of the state: a click is an argument of \<^verbatim>\<open>handlePrefSelectionChange\<close> below.
\<close>

definition writeResolvedPrefs ::
  "(string \<times> resolvedPagePref) list \<Rightarrow> (string \<times> string) list \<Rightarrow> (string \<times> string) list" where
  "writeResolvedPrefs resolvedPagePrefs selected =
     fold (\<lambda>(resolvedPrefId, resolvedPref).
             AList.update (pref_id resolvedPref) (currentValue resolvedPref))
       resolvedPagePrefs selected"

definition rerenderChooser ::
  "('oc, 'pc, 'x, 'm) collaborators \<Rightarrow> ('oc, 'pc, 'x) clientRenderer
   \<Rightarrow> ('oc, 'pc, 'x) clientRenderer result" where
  "rerenderChooser c st =
     (case (pagePrefsConfig st, prefOptionsConfig st, chooserElement st) of
        (Some pagePrefs, Some prefOptions, Some chooser) \<Rightarrow>
          (case resolveMinifiedPagePrefs c pagePrefs prefOptions (selectedValsByPrefId st) of
             Inl e \<Rightarrow> Inl (e, st)
           | Inr resolvedPagePrefs \<Rightarrow>
               Inr (st\<lparr>selectedValsByPrefId :=
                          writeResolvedPrefs resolvedPagePrefs (selectedValsByPrefId st),
                        document := setInnerHTML chooser (getChooserHtml c resolvedPagePrefs)
                                      (document st)\<rparr>))
      | _ \<Rightarrow> Inl (CannotRerenderChooser, st))"

text \<open>
  \<^verbatim>\<open>handlePrefSelectionChange\<close>: the three early returns (\<^verbatim>\<open>!prefId\<close> holds for \<^verbatim>\<open>null\<close>
  and for the empty string), then the write of the selected option and the three
  re-renders in the order of the source. A throw ends the handler.
\<close>

definition handlePrefSelectionChange ::
  "('oc, 'pc, 'x, 'm) collaborators \<Rightarrow> eventTarget \<Rightarrow> ('oc, 'pc, 'x) clientRenderer
   \<Rightarrow> ('oc, 'pc, 'x) clientRenderer result" where
  "handlePrefSelectionChange c target st =
     (case target of
        NotAnElement \<Rightarrow> Inr st
      | AnElement node \<Rightarrow>
          (case getAttribute node ''data-pref-id'' of
             None \<Rightarrow> Inr st
           | Some prefId \<Rightarrow>
               if prefId = [] then Inr st
               else (case getAttribute node ''data-option-id'' of
                       None \<Rightarrow> Inr st
                     | Some optionId \<Rightarrow>
                         if optionId = [] then Inr st
                         else
                           let st1 = st\<lparr>selectedValsByPrefId :=
                                           AList.update prefId optionId (selectedValsByPrefId st)\<rparr> in
                           case rerenderChooser c st1 of
                             Inl thrown \<Rightarrow> Inl thrown
                           | Inr st2 \<Rightarrow>
                               (case rerenderPageContent c st2 of
                                  Inl thrown \<Rightarrow> Inl thrown
                                | Inr st3 \<Rightarrow> populateRightNav st3))))"




section \<open>The expression evaluator\<close>

text \<open>
  Modelled from the spec: the expression tree held in a function node. The type of the
  nodes is declared in \<^verbatim>\<open>markdoc-static-compiler/src/types\<close>, which is not among the
  sources. The spec (4.2) names the node kinds: a comparison of a preference variable
  with a literal option value, for equality or inequality, and conjunction, disjunction
  and negation.
\<close>

datatype expression =
    Equals string string
  | NotEquals string string
  | And expression expression
  | Or expression expression
  | Not expression

text \<open>
  Modelled from the spec: the value of an expression under the bindings. A variable is
  resolved to the option selected for it; a variable without a binding is a fatal
  error, not a silent false (spec 4.2).
\<close>

fun evaluate :: "(string \<times> string) list \<Rightarrow> expression \<Rightarrow> error + bool" where
  "evaluate bindings (Equals v lit) =
     (case map_of bindings v of
        None \<Rightarrow> Inl (UnresolvedVariable v)
      | Some opt \<Rightarrow> Inr (opt = lit))"
| "evaluate bindings (NotEquals v lit) =
     (case map_of bindings v of
        None \<Rightarrow> Inl (UnresolvedVariable v)
      | Some opt \<Rightarrow> Inr (opt \<noteq> lit))"
| "evaluate bindings (And a b) =
     (case evaluate bindings a of
        Inl e \<Rightarrow> Inl e
      | Inr x \<Rightarrow> (case evaluate bindings b of Inl e \<Rightarrow> Inl e | Inr y \<Rightarrow> Inr (x \<and> y)))"
| "evaluate bindings (Or a b) =
     (case evaluate bindings a of
        Inl e \<Rightarrow> Inl e
      | Inr x \<Rightarrow> (case evaluate bindings b of Inl e \<Rightarrow> Inl e | Inr y \<Rightarrow> Inr (x \<or> y)))"
| "evaluate bindings (Not a) =
     (case evaluate bindings a of Inl e \<Rightarrow> Inl e | Inr x \<Rightarrow> Inr (\<not> x))"

text \<open>
  Modelled from the spec: \<^verbatim>\<open>reresolveFunctionNode\<close> of
  \<^verbatim>\<open>markdoc-static-compiler/src/reresolver\<close>, which is not among the sources. The spec
  (4.2) gives its contract: \<open>reevaluate(expression, bindings)\<close> returns the expression
  with its value updated, as a function of the expression and the bindings alone.
\<close>

definition reevaluate ::
  "expression clientFunction \<Rightarrow> (string \<times> string) list \<Rightarrow> error + expression clientFunction" where
  "reevaluate f bindings =
     (case evaluate bindings (fn_rest f) of
        Inl e \<Rightarrow> Inl e
      | Inr v \<Rightarrow> Inr (f\<lparr>fn_value := v\<rparr>))"

section \<open>Notions used to state the properties\<close>

text \<open>The state a call ends in, whether it returns or throws.\<close>

definition finalState :: "'s result \<Rightarrow> 's" where
  "finalState out = (case out of Inl (e, s) \<Rightarrow> s | Inr s \<Rightarrow> s)"

text \<open>
  What one round of the second loop of \<^verbatim>\<open>rerenderPageContent\<close> makes of a toggleable
  element whose reference is \<open>ref\<close>.
\<close>

definition toggled :: "(string \<rightharpoonup> bool) \<Rightarrow> string \<Rightarrow> element \<Rightarrow> element" where
  "toggled newDisplayStatusByRef ref e =
     (if getDisplayStatus newDisplayStatusByRef ref = Undefined then e
      else if truthy (getDisplayStatus newDisplayStatusByRef ref)
      then classList_remove ''markdoc__hidden'' e
      else classList_add ''markdoc__hidden'' e)"

text \<open>
  A content block is an element of the document of class \<^verbatim>\<open>markdoc__toggleable\<close>; its
  content reference is its \<^verbatim>\<open>data-if\<close> attribute. A document has plain references when
  no content block's reference is the name of a property of \<^verbatim>\<open>Object.prototype\<close>.
\<close>

definition blockRef :: "document \<Rightarrow> nat \<Rightarrow> string option" where
  "blockRef doc i =
     (if attached (doc ! i) \<and> classList_contains (doc ! i) ''markdoc__toggleable''
      then getAttribute (doc ! i) ''data-if'' else None)"

definition plainRef :: "document \<Rightarrow> nat \<Rightarrow> bool" where
  "plainRef doc i =
     (case blockRef doc i of None \<Rightarrow> True | Some ref \<Rightarrow> ref \<notin> set objectPrototypeProperties)"


text \<open>The value stored under a reference differs between two expression mappings.\<close>

definition valueChanged ::
  "(string \<times> 'x clientFunction) list \<Rightarrow> (string \<times> 'x clientFunction) list \<Rightarrow> string \<Rightarrow> bool" where
  "valueChanged old new ref =
     (case (map_of old ref, map_of new ref) of
        (Some f, Some f') \<Rightarrow> fn_value f \<noteq> fn_value f'
      | _ \<Rightarrow> False)"


section \<open>An example page\<close>

text \<open>
  The page of the end-to-end scenario of the spec (section 8): the preference \<^verbatim>\<open>os\<close> with
  the options \<^verbatim>\<open>linux\<close> and \<^verbatim>\<open>windows\<close>, the preference \<^verbatim>\<open>pkg\<close> whose options
  \<^verbatim>\<open>{os}-stable\<close> and \<^verbatim>\<open>{os}-beta\<close> depend on the selected \<^verbatim>\<open>os\<close>, and one content block
  shown when \<^verbatim>\<open>pkg\<close> is \<^verbatim>\<open>windows-beta\<close>. The resolver and the chooser markup below are
  inputs made for this page.
\<close>

definition el ::
  "string \<Rightarrow> string \<Rightarrow> string list \<Rightarrow> (string \<times> string) list \<Rightarrow> string \<Rightarrow> nat \<Rightarrow> element" where
  "el t i c a x d =
     \<lparr>tagName = t, ident = i, classList = c, attributes = a, textContent = x,
      innerHTML = [], depth = d, attached = True\<rparr>"

definition example_resolve ::
  "unit \<Rightarrow> unit \<Rightarrow> (string \<times> string) list \<Rightarrow> error + (string \<times> resolvedPagePref) list" where
  "example_resolve pagePrefs prefOptions vals =
     (let os = (case map_of vals ''os'' of
                  None \<Rightarrow> ''linux''
                | Some v \<Rightarrow> if v \<in> set [''linux'', ''windows''] then v else ''linux'');
          pkgOptions = [os @ ''-stable'', os @ ''-beta''];
          pkg = (case map_of vals ''pkg'' of
                   None \<Rightarrow> os @ ''-stable''
                 | Some v \<Rightarrow> if v \<in> set pkgOptions then v else os @ ''-stable'')
      in Inr [(''os'', \<lparr>pref_id = ''os'', currentValue = os\<rparr>),
              (''pkg'', \<lparr>pref_id = ''pkg'', currentValue = pkg\<rparr>)])"

definition example_chooserHtml :: "(string \<times> resolvedPagePref) list \<Rightarrow> string" where
  "example_chooserHtml resolved =
     concat (map (\<lambda>(k, rp). ''<p>'' @ pref_id rp @ ''='' @ currentValue rp @ ''</p>'') resolved)"

definition example_collaborators ::
  "(unit, unit, expression, expression clientFunction) collaborators" where
  "example_collaborators =
     \<lparr>resolveMinifiedPagePrefs = example_resolve,
      getChooserHtml = example_chooserHtml,
      reresolveFunctionNode = reevaluate,
      expandClientFunction = (\<lambda>m. m)\<rparr>"

definition example_document :: document where
  "example_document =
     [el ''DIV'' ''markdoc-chooser'' [] [] [] 0,
      el ''DIV'' ''mainContent'' [] [] [] 0,
      el ''H2'' ''a'' [] [] ''A'' 1,
      el ''DIV'' [] [''markdoc__toggleable''] [(''data-if'', ''r1'')] [] 1,
      el ''H3'' ''b'' [] [] ''B'' 2,
      el ''H2'' ''c'' [] [] ''C'' 1,
      el ''DIV'' ''TableOfContents'' [] [] [] 0]"

definition example_function :: "bool \<Rightarrow> expression clientFunction" where
  "example_function v = \<lparr>fn_value = v, fn_rest = Equals ''pkg'' ''windows-beta''\<rparr>"

text \<open>The page with \<^verbatim>\<open>windows\<close> and \<^verbatim>\<open>windows-beta\<close> selected and the block shown.\<close>

definition example_renderer :: "(unit, unit, expression) clientRenderer" where
  "example_renderer =
     \<lparr>prefOptionsConfig = Some (), pagePrefsConfig = Some (), chooserElement = Some 0,
      selectedValsByPrefId = [(''os'', ''windows''), (''pkg'', ''windows-beta'')],
      ifFunctionsByRef = [(''r1'', example_function True)],
      document = example_document\<rparr>"


definition example_hidden_block :: element where
  "example_hidden_block =
     el ''DIV'' [] [''markdoc__toggleable'', ''markdoc__hidden''] [(''data-if'', ''r1'')] [] 1"

text \<open>
  The page once the click has been written and corrected (\<^verbatim>\<open>linux\<close>, and \<^verbatim>\<open>linux-stable\<close>
  for the no longer valid \<^verbatim>\<open>windows-beta\<close>), the expression not yet re-evaluated; the same
  page after \<^verbatim>\<open>rerenderPageContent\<close>; and the page at the end of the handler.
\<close>

definition stale_renderer :: "(unit, unit, expression) clientRenderer" where
  "stale_renderer =
     example_renderer\<lparr>selectedValsByPrefId := [(''os'', ''linux''), (''pkg'', ''linux-stable'')]\<rparr>"

definition rerendered_renderer :: "(unit, unit, expression) clientRenderer" where
  "rerendered_renderer =
     stale_renderer\<lparr>ifFunctionsByRef := [(''r1'', example_function False)],
                    document := example_document[3 := example_hidden_block]\<rparr>"


text \<open>The headings \<^verbatim>\<open>H2 A\<close>, \<^verbatim>\<open>H3 B\<close> (hidden) and \<^verbatim>\<open>H2 C\<close>, and the headings \<^verbatim>\<open>H2 A\<close>, \<^verbatim>\<open>H4 B\<close>.\<close>

definition headings_document :: document where
  "headings_document =
     [el ''DIV'' ''mainContent'' [] [] [] 0,
      el ''H2'' ''a'' [] [] ''A'' 1,
      el ''H3'' ''b'' [''markdoc__hidden''] [] ''B'' 1,
      el ''H2'' ''c'' [] [] ''C'' 1,
      el ''DIV'' ''TableOfContents'' [] [] [] 0]"

definition jump_document :: document where
  "jump_document =
     [el ''DIV'' ''mainContent'' [] [] [] 0,
      el ''H2'' ''a'' [] [] ''A'' 1,
      el ''H4'' ''b'' [] [] ''B'' 1,
      el ''DIV'' ''TableOfContents'' [] [] [] 0]"

text \<open>The two lists of headings as pages, and what \<^verbatim>\<open>populateRightNav\<close> makes of them.\<close>

definition headings_renderer :: "(unit, unit, expression) clientRenderer" where
  "headings_renderer = example_renderer\<lparr>document := headings_document\<rparr>"

definition headings_after :: "(unit, unit, expression) clientRenderer" where
  "headings_after =
     headings_renderer\<lparr>document := headings_document
       [4 := (el ''DIV'' ''TableOfContents'' [] [] [] 0)
               \<lparr>innerHTML :=
                  ''<ul><li><a href=\"#a\">A</a></li><li><a href=\"#c\">C</a></li></ul>''\<rparr>]\<rparr>"

definition jump_renderer :: "(unit, unit, expression) clientRenderer" where
  "jump_renderer = example_renderer\<lparr>document := jump_document\<rparr>"

definition jump_after :: "(unit, unit, expression) clientRenderer" where
  "jump_after =
     jump_renderer\<lparr>document := jump_document
       [3 := (el ''DIV'' ''TableOfContents'' [] [] [] 0)
               \<lparr>innerHTML :=
                  ''<ul><li><a href=\"#a\">A</a></li><ul><li><a href=\"#b\">B</a></li></ul>''\<rparr>]\<rparr>"




text \<open>
  Variants of the page: without an expression for the block's reference; with the
  expression but without its block; with a toggleable element that has no \<^verbatim>\<open>data-if\<close>;
  without the navigation container.
\<close>

definition orphan_renderer :: "(unit, unit, expression) clientRenderer" where
  "orphan_renderer = example_renderer\<lparr>ifFunctionsByRef := []\<rparr>"

definition pruned_renderer :: "(unit, unit, expression) clientRenderer" where
  "pruned_renderer = stale_renderer\<lparr>document := headings_document\<rparr>"

definition noref_renderer :: "(unit, unit, expression) clientRenderer" where
  "noref_renderer =
     example_renderer\<lparr>document := [el ''DIV'' [] [''markdoc__toggleable''] [] [] 0]\<rparr>"

definition nonav_renderer :: "(unit, unit, expression) clientRenderer" where
  "nonav_renderer = example_renderer\<lparr>document := butlast example_document\<rparr>"





section \<open>The loops of rerenderPageContent\<close>




lemma reresolve_loop_other:
  "reresolve_loop r vars refs fns nds = Inr (fns', nds') \<Longrightarrow> k \<notin> set refs \<Longrightarrow>
   map_of fns' k = map_of fns k \<and> nds' k = nds k"
proof (induction refs arbitrary: fns nds)
  case Nil
  then show ?case by simp
next
  case (Cons ref refs)
  then show ?case
    by (auto simp: Let_def update_conv' setDisplayStatus_def split: option.splits sum.splits if_splits)
qed

lemma reresolve_loop_done:
  "reresolve_loop r vars refs fns nds = Inr (fns', nds') \<Longrightarrow> distinct refs \<Longrightarrow> k \<in> set refs \<Longrightarrow>
   \<exists>f f'. map_of fns k = Some f \<and> r f vars = Inr f' \<and> map_of fns' k = Some f'
     \<and> nds' k = (if fn_value f \<noteq> fn_value f' \<and> k \<noteq> ''__proto__''
                 then Some (fn_value f') else nds k)"
proof (induction refs arbitrary: fns nds)
  case Nil
  then show ?case by simp
next
  case (Cons ref refs)
  from Cons.prems(1) obtain f f1 where f: "map_of fns ref = Some f" and f1: "r f vars = Inr f1"
    and rest: "reresolve_loop r vars refs (AList.update ref f1 fns)
                 (if fn_value f \<noteq> fn_value f1 then setDisplayStatus nds ref (fn_value f1) else nds)
               = Inr (fns', nds')"
    by (auto simp: Let_def split: option.splits sum.splits)
  show ?case
  proof (cases "k = ref")
    case True
    with Cons.prems(2) have "k \<notin> set refs" by simp
    from reresolve_loop_other [OF rest this] f f1 True show ?thesis
      by (auto simp: update_conv' setDisplayStatus_def)
  next
    case False
    with Cons.prems have "k \<in> set refs" "distinct refs" by auto
    note step = Cons.IH [OF rest this(2) this(1)]
    from False
    have n: "(if fn_value f \<noteq> fn_value f1 then setDisplayStatus nds ref (fn_value f1) else nds) k
             = nds k"
      by (simp add: setDisplayStatus_def)
    from False have m: "map_of (AList.update ref f1 fns) k = map_of fns k"
      by (simp add: update_conv')
    from step show ?thesis unfolding n m .
  qed
qed




lemma toggle_loop_Cons:
  "getAttribute (doc ! a) ''data-if'' = Some ref \<Longrightarrow> ref \<noteq> [] \<Longrightarrow>
   toggle_loop nds (a # rest) doc = toggle_loop nds rest (doc[a := toggled nds ref (doc ! a)])"
  by (simp add: Let_def toggled_def)

lemma toggle_loop_Cons_throws:
  "getAttribute (doc ! a) ''data-if'' \<in> {None, Some []} \<Longrightarrow>
   toggle_loop nds (a # rest) doc = Inl (NoRefOnToggleable, doc)"
  by (auto simp: Let_def)

declare toggle_loop.simps(2) [simp del]

lemma toggle_loop_Cons_Inr:
  assumes "toggle_loop nds (a # rest) doc = Inr doc'"
  obtains ref where "getAttribute (doc ! a) ''data-if'' = Some ref" "ref \<noteq> []"
    "toggle_loop nds rest (doc[a := toggled nds ref (doc ! a)]) = Inr doc'"
proof (cases "getAttribute (doc ! a) ''data-if''")
  case None
  with assms show ?thesis by (simp add: toggle_loop_Cons_throws)
next
  case (Some ref)
  with assms have "ref \<noteq> []" by (auto simp: toggle_loop_Cons_throws)
  with Some assms that show ?thesis by (simp add: toggle_loop_Cons)
qed

lemma toggle_loop_length:
  "toggle_loop nds is doc = Inr doc' \<Longrightarrow> length doc' = length doc"
proof (induction "is" arbitrary: doc)
  case Nil
  then show ?case by simp
next
  case (Cons a rest)
  from Cons.prems obtain ref where
    "toggle_loop nds rest (doc[a := toggled nds ref (doc ! a)]) = Inr doc'"
    by (rule toggle_loop_Cons_Inr)
  from Cons.IH [OF this] show ?case by simp
qed

lemma toggle_loop_other:
  "toggle_loop nds is doc = Inr doc' \<Longrightarrow> j \<notin> set is \<Longrightarrow> doc' ! j = doc ! j"
proof (induction "is" arbitrary: doc)
  case Nil
  then show ?case by simp
next
  case (Cons a rest)
  from Cons.prems(1) obtain ref where
    "toggle_loop nds rest (doc[a := toggled nds ref (doc ! a)]) = Inr doc'"
    by (rule toggle_loop_Cons_Inr)
  from Cons.IH [OF this] Cons.prems(2) show ?case by simp
qed

lemma toggle_loop_done:
  "toggle_loop nds is doc = Inr doc' \<Longrightarrow> distinct is \<Longrightarrow> i \<in> set is \<Longrightarrow> i < length doc \<Longrightarrow>
   \<exists>ref. getAttribute (doc ! i) ''data-if'' = Some ref \<and> ref \<noteq> []
     \<and> doc' ! i = toggled nds ref (doc ! i)"
proof (induction "is" arbitrary: doc)
  case Nil
  then show ?case by simp
next
  case (Cons a rest)
  from Cons.prems(1) obtain ref where ref: "getAttribute (doc ! a) ''data-if'' = Some ref" "ref \<noteq> []"
    and rest: "toggle_loop nds rest (doc[a := toggled nds ref (doc ! a)]) = Inr doc'"
    by (rule toggle_loop_Cons_Inr)
  show ?case
  proof (cases "i = a")
    case True
    with Cons.prems(2) have "i \<notin> set rest" by simp
    from toggle_loop_other [OF rest this] True Cons.prems(4) ref show ?thesis by simp
  next
    case False
    with Cons.prems have "i \<in> set rest" "distinct rest" by auto
    from Cons.IH [OF rest this(2) this(1)] Cons.prems(4) False show ?thesis by simp
  qed
qed

lemma toggle_loop_throws:
  "\<exists>i \<in> set is. getAttribute (doc ! i) ''data-if'' \<in> {None, Some []} \<Longrightarrow>
   distinct is \<Longrightarrow> \<forall>i \<in> set is. i < length doc \<Longrightarrow>
   \<exists>doc'. toggle_loop nds is doc = Inl (NoRefOnToggleable, doc')"
proof (induction "is" arbitrary: doc)
  case Nil
  then show ?case by simp
next
  case (Cons a rest)
  show ?case
  proof (cases "getAttribute (doc ! a) ''data-if'' \<in> {None, Some []}")
    case True
    then show ?thesis by (simp add: toggle_loop_Cons_throws)
  next
    case False
    then obtain ref where ref: "getAttribute (doc ! a) ''data-if'' = Some ref" "ref \<noteq> []"
      by (cases "getAttribute (doc ! a) ''data-if''") auto
    let ?doc1 = "doc[a := toggled nds ref (doc ! a)]"
    from Cons.prems False obtain i where i: "i \<in> set rest" "getAttribute (doc ! i) ''data-if'' \<in> {None, Some []}"
      by auto
    with Cons.prems(2) have "i \<noteq> a" by auto
    with i have "\<exists>i \<in> set rest. getAttribute (?doc1 ! i) ''data-if'' \<in> {None, Some []}"
      by (intro bexI [of _ i]) simp_all
    moreover from Cons.prems have "distinct rest" "\<forall>i \<in> set rest. i < length ?doc1" by simp_all
    ultimately obtain doc' where "toggle_loop nds rest ?doc1 = Inl (NoRefOnToggleable, doc')"
      using Cons.IH [of ?doc1] by blast
    with ref show ?thesis by (simp add: toggle_loop_Cons)
  qed
qed





lemma getElementsByClassName_set:
  "set (getElementsByClassName doc c)
   = {i. i < length doc \<and> attached (doc ! i) \<and> classList_contains (doc ! i) c}"
  by (auto simp: getElementsByClassName_def)

lemma getElementsByClassName_distinct: "distinct (getElementsByClassName doc c)"
  by (simp add: getElementsByClassName_def)

lemma toggle_loop_succeeds:
  "\<forall>i \<in> set is. getAttribute (doc ! i) ''data-if'' \<notin> {None, Some []} \<Longrightarrow>
   distinct is \<Longrightarrow> \<forall>i \<in> set is. i < length doc \<Longrightarrow>
   \<exists>doc'. toggle_loop nds is doc = Inr doc'"
proof (induction "is" arbitrary: doc)
  case Nil
  then show ?case by simp
next
  case (Cons a rest)
  from Cons.prems(1) obtain ref where ref: "getAttribute (doc ! a) ''data-if'' = Some ref" "ref \<noteq> []"
    by (cases "getAttribute (doc ! a) ''data-if''") auto
  let ?doc1 = "doc[a := toggled nds ref (doc ! a)]"
  from Cons.prems have "a \<notin> set rest" by simp
  then have same: "?doc1 ! i = doc ! i" if "i \<in> set rest" for i
    using that by (cases "i = a") auto
  from Cons.prems(1) have "\<forall>i \<in> set rest. getAttribute (?doc1 ! i) ''data-if'' \<notin> {None, Some []}"
    by (simp add: same)
  moreover from Cons.prems have "distinct rest" "\<forall>i \<in> set rest. i < length ?doc1" by simp_all
  ultimately obtain doc' where "toggle_loop nds rest ?doc1 = Inr doc'"
    using Cons.IH [of ?doc1] by blast
  with ref show ?case by (simp add: toggle_loop_Cons)
qed




section \<open>One pass of rerenderPageContent\<close>

lemma rerenderPageContent_Inr:
  assumes "rerenderPageContent c st = Inr st'"
  obtains fns nds doc' where
    "reresolve_loop (reresolveFunctionNode c) (selectedValsByPrefId st)
       (map fst (ifFunctionsByRef st)) (ifFunctionsByRef st) Map.empty = Inr (fns, nds)"
    "toggle_loop nds (getElementsByClassName (document st) ''markdoc__toggleable'') (document st) = Inr doc'"
    "st' = st\<lparr>ifFunctionsByRef := fns, document := doc'\<rparr>"
  using assms unfolding rerenderPageContent_def
  by (auto split: sum.splits prod.splits)

lemma first_pass_status:
  assumes loop: "reresolve_loop r vars (map fst fns) fns Map.empty = Inr (fns', nds)"
    and keys: "distinct (map fst fns)"
    and ref: "ref \<noteq> ''__proto__''"
  shows "nds ref = (case (map_of fns ref, map_of fns' ref) of
                      (Some f, Some f') \<Rightarrow> if fn_value f \<noteq> fn_value f' then Some (fn_value f') else None
                    | _ \<Rightarrow> None)"
proof (cases "ref \<in> set (map fst fns)")
  case True
  from reresolve_loop_done [OF loop keys True] ref show ?thesis by auto
next
  case False
  from reresolve_loop_other [OF loop False] have "nds ref = None" "map_of fns' ref = map_of fns ref"
    by simp_all
  moreover from False have "map_of fns ref = None" by (simp add: map_of_eq_None_iff)
  ultimately show ?thesis by simp
qed

lemma plain_not_proto: "ref \<notin> set objectPrototypeProperties \<Longrightarrow> ref \<noteq> ''__proto__''"
  by (auto simp: objectPrototypeProperties_def)

lemma toggled_plain:
  "ref \<notin> set objectPrototypeProperties \<Longrightarrow>
   toggled nds ref e =
     (case nds ref of
        None \<Rightarrow> e
      | Some v \<Rightarrow> if v then classList_remove ''markdoc__hidden'' e
                  else classList_add ''markdoc__hidden'' e)"
  by (simp add: toggled_def getDisplayStatus_def split: option.splits)

lemma rerenderPageContent_element:
  assumes ok: "rerenderPageContent c st = Inr st'"
    and keys: "distinct (map fst (ifFunctionsByRef st))"
    and i: "i < length (document st)"
    and plain: "plainRef (document st) i"
  shows "document st' ! i =
     (case blockRef (document st) i of
        None \<Rightarrow> document st ! i
      | Some ref \<Rightarrow>
          (case (map_of (ifFunctionsByRef st) ref, map_of (ifFunctionsByRef st') ref) of
             (Some f, Some f') \<Rightarrow>
                if fn_value f \<noteq> fn_value f'
                then (if fn_value f' then classList_remove ''markdoc__hidden'' (document st ! i)
                      else classList_add ''markdoc__hidden'' (document st ! i))
                else document st ! i
           | _ \<Rightarrow> document st ! i))"
proof -
  from ok obtain fns nds doc' where
    loop: "reresolve_loop (reresolveFunctionNode c) (selectedValsByPrefId st)
       (map fst (ifFunctionsByRef st)) (ifFunctionsByRef st) Map.empty = Inr (fns, nds)"
    and tog: "toggle_loop nds (getElementsByClassName (document st) ''markdoc__toggleable'') (document st) = Inr doc'"
    and st': "st' = st\<lparr>ifFunctionsByRef := fns, document := doc'\<rparr>"
    by (rule rerenderPageContent_Inr)
  show ?thesis
  proof (cases "attached (document st ! i)
                \<and> classList_contains (document st ! i) ''markdoc__toggleable''")
    case False
    then have "i \<notin> set (getElementsByClassName (document st) ''markdoc__toggleable'')"
      by (simp add: getElementsByClassName_set)
    from toggle_loop_other [OF tog this] False st' show ?thesis
      by (auto simp: blockRef_def)
  next
    case True
    with i have "i \<in> set (getElementsByClassName (document st) ''markdoc__toggleable'')"
      by (simp add: getElementsByClassName_set)
    from toggle_loop_done [OF tog getElementsByClassName_distinct this i]
    obtain ref where ref: "getAttribute (document st ! i) ''data-if'' = Some ref"
      and d: "doc' ! i = toggled nds ref (document st ! i)" by blast
    from True ref have b: "blockRef (document st) i = Some ref" by (simp add: blockRef_def)
    with plain have p: "ref \<notin> set objectPrototypeProperties" by (simp add: plainRef_def)
    note status = first_pass_status [OF loop keys plain_not_proto [OF p]]
    from st' d have "document st' ! i = toggled nds ref (document st ! i)"
      and "ifFunctionsByRef st' = fns" by simp_all
    with b status show ?thesis
      by (auto simp: toggled_plain [OF p] split: option.splits)
  qed
qed






section \<open>The chooser and the handler\<close>










section \<open>Initialization\<close>




section \<open>The scan of the headings\<close>

lemma getElementById_None:
  "\<forall>e \<in> set doc. ident e \<noteq> x \<Longrightarrow> getElementById doc x = None"
  unfolding getElementById_def find_None_iff by simp

lemma getElementById_Some:
  "getElementById doc x = Some i \<Longrightarrow> i < length doc \<and> attached (doc ! i) \<and> ident (doc ! i) = x"
  unfolding getElementById_def by (auto simp: find_Some_iff)

lemma setInnerHTML_length: "length (setInnerHTML i html doc) = length doc"
proof -
  have "length (detachDescendants d es) = length es" for d es
    by (induction es) simp_all
  then show ?thesis by (auto simp: setInnerHTML_def)
qed

lemma setInnerHTML_nth:
  "i < length doc \<Longrightarrow> setInnerHTML i html doc ! i = (doc ! i)\<lparr>innerHTML := html\<rparr>"
  by (simp add: setInnerHTML_def nth_append)

lemma populateRightNav_markup:
  assumes "getElementById (document st) ''TableOfContents'' = Some nav"
  shows "\<exists>st'. populateRightNav st = Inr st'
           \<and> length (document st') = length (document st)
           \<and> document st' ! nav = (document st ! nav)\<lparr>innerHTML := rightNavHtml (document st)\<rparr>"
proof -
  from getElementById_Some [OF assms] have "nav < length (document st)" by simp
  with assms show ?thesis
    by (simp add: populateRightNav_def Let_def setInnerHTML_length setInnerHTML_nth)
qed

lemma elementIsHidden_loop_Some:
  "elementIsHidden_loop doc (Some i)
   = (\<exists>a \<in> set (i # ancestors doc i). classList_contains (doc ! a) ''markdoc__hidden'')"
proof (induction i rule: less_induct)
  case (less i)
  show ?case
  proof (cases "parentElement doc i")
    case None
    then show ?thesis by (simp add: ancestors.simps [of doc i])
  next
    case (Some p)
    from parentElement_less [OF Some] less.IH [of p] Some show ?thesis
      by (simp add: ancestors.simps [of doc i])
  qed
qed

lemma populateRightNav_loop_filter:
  "populateRightNav_loop doc headers lastSeenLevel html =
   populateRightNav_loop doc (filter (\<lambda>h. \<not> elementIsHidden doc h) headers) lastSeenLevel html"
  by (induction headers arbitrary: lastSeenLevel html) (simp_all add: Let_def)

lemma populateRightNav_loop_visible:
  "\<forall>h \<in> set headers. \<not> elementIsHidden doc h \<Longrightarrow>
   populateRightNav_loop doc headers lastSeenLevel html =
   html @ concat (map (\<lambda>(prev, h).
       (if headerLevel (doc ! h) > prev then ''<ul>''
        else if headerLevel (doc ! h) < prev then ''</ul>'' else [])
       @ navEntry (doc ! h))
     (zip (lastSeenLevel # map (\<lambda>h. headerLevel (doc ! h)) headers) headers))"
  by (induction headers arbitrary: lastSeenLevel html) (simp_all add: Let_def)

lemma rightNavHtml_visible:
  "rightNavHtml doc
   = populateRightNav_loop doc
       (filter (\<lambda>h. \<not> elementIsHidden doc h) (mainContentHeaders doc)) 2 ''<ul>''
     @ ''</ul>''"
  unfolding rightNavHtml_def by (subst populateRightNav_loop_filter) (rule refl)

lemma rightNavHtml_tags:
  "rightNavHtml doc =
     (let visible = filter (\<lambda>h. \<not> elementIsHidden doc h) (mainContentHeaders doc);
          levels = map (\<lambda>h. headerLevel (doc ! h)) visible
      in ''<ul>''
         @ concat (map (\<lambda>(previous, h).
                      (if headerLevel (doc ! h) > previous then ''<ul>''
                       else if headerLevel (doc ! h) < previous then ''</ul>''
                       else [])
                      @ navEntry (doc ! h))
                    (zip (2 # levels) visible))
         @ ''</ul>'')"
proof -
  let ?visible = "filter (\<lambda>h. \<not> elementIsHidden doc h) (mainContentHeaders doc)"
  have "populateRightNav_loop doc ?visible 2 ''<ul>''
      = ''<ul>'' @ concat (map (\<lambda>(prev, h).
           (if headerLevel (doc ! h) > prev then ''<ul>''
            else if headerLevel (doc ! h) < prev then ''</ul>'' else [])
           @ navEntry (doc ! h))
         (zip (2 # map (\<lambda>h. headerLevel (doc ! h)) ?visible) ?visible))"
    by (rule populateRightNav_loop_visible) simp
  then show ?thesis by (simp add: rightNavHtml_visible Let_def)
qed

section \<open>Order of correction and re-evaluation\<close>



section \<open>The visibility of the content blocks\<close>

text \<open>
  C2, as the claim states it, fails: when exactly one expression changes its value, it
  need not be exactly one block whose visibility flag changes. On the page below the
  expression \<^verbatim>\<open>r1\<close> turns from true to false and the page holds no block for \<^verbatim>\<open>r1\<close>;
  the pass returns with the document as it was.
\<close>

theorem rerenderPageContent_one_change_no_block:
  "rerenderPageContent example_collaborators pruned_renderer
     = Inr (pruned_renderer\<lparr>ifFunctionsByRef := [(''r1'', example_function False)]\<rparr>)
   \<and> ifFunctionsByRef pruned_renderer = [(''r1'', example_function True)]
   \<and> getElementsByClassName (document pruned_renderer) ''markdoc__toggleable'' = []"
  by code_simp

text \<open>
  C2, amended. In a pass of \<^verbatim>\<open>rerenderPageContent\<close> that returns, the document keeps its
  length. Of the elements that are not content blocks, and of the content blocks whose
  reference is not the name of a property of \<^verbatim>\<open>Object.prototype\<close>: every content block
  whose expression changed its value has the class \<^verbatim>\<open>markdoc__hidden\<close> exactly when the new
  value is false, and nothing but its class list differs; every other element is left as
  it was. So the visibility flag of such an element changes exactly when the element is
  a content block whose expression changed its value and whose flag agreed with the old
  value: when exactly one expression changed, the blocks whose flag changes are the
  blocks of that reference that showed the old value, however many the page holds.
\<close>

theorem rerenderPageContent_minimal_diff:
  assumes ok: "rerenderPageContent c st = Inr st'"
    and keys: "distinct (map fst (ifFunctionsByRef st))"
  shows
    "length (document st') = length (document st)
     \<and> (\<forall>i < length (document st). plainRef (document st) i \<longrightarrow>
          (\<forall>ref f'. blockRef (document st) i = Some ref
               \<and> valueChanged (ifFunctionsByRef st) (ifFunctionsByRef st') ref
               \<and> map_of (ifFunctionsByRef st') ref = Some f'
             \<longrightarrow> classList_contains (document st' ! i) ''markdoc__hidden'' = (\<not> fn_value f')
                 \<and> document st' ! i = (document st ! i)\<lparr>classList := classList (document st' ! i)\<rparr>)
        \<and> ((\<forall>ref. blockRef (document st) i = Some ref
                 \<longrightarrow> \<not> valueChanged (ifFunctionsByRef st) (ifFunctionsByRef st') ref)
             \<longrightarrow> document st' ! i = document st ! i)
        \<and> ((classList_contains (document st' ! i) ''markdoc__hidden''
               \<noteq> classList_contains (document st ! i) ''markdoc__hidden'')
             = (\<exists>ref f. blockRef (document st) i = Some ref
                  \<and> valueChanged (ifFunctionsByRef st) (ifFunctionsByRef st') ref
                  \<and> map_of (ifFunctionsByRef st) ref = Some f
                  \<and> classList_contains (document st ! i) ''markdoc__hidden'' = (\<not> fn_value f))))"
proof -
  from ok obtain fns nds doc' where
    tog: "toggle_loop nds (getElementsByClassName (document st) ''markdoc__toggleable'') (document st) = Inr doc'"
    and st': "st' = st\<lparr>ifFunctionsByRef := fns, document := doc'\<rparr>"
    by (rule rerenderPageContent_Inr)
  from toggle_loop_length [OF tog] st' have len: "length (document st') = length (document st)"
    by simp
  note el = rerenderPageContent_element [OF ok keys]
  have set_flag: "classList_contains (document st' ! i) ''markdoc__hidden'' = (\<not> fn_value f')
       \<and> document st' ! i = (document st ! i)\<lparr>classList := classList (document st' ! i)\<rparr>"
    if "i < length (document st)" "plainRef (document st) i" "blockRef (document st) i = Some ref"
      "valueChanged (ifFunctionsByRef st) (ifFunctionsByRef st') ref"
      "map_of (ifFunctionsByRef st') ref = Some f'" for i ref f'
    using el [OF that(1,2)] that(3-5)
    by (auto simp: valueChanged_def classList_contains_def classList_add_def classList_remove_def
        split: option.splits)
  have untouched: "document st' ! i = document st ! i"
    if "i < length (document st)" "plainRef (document st) i"
      "\<forall>ref. blockRef (document st) i = Some ref
           \<longrightarrow> \<not> valueChanged (ifFunctionsByRef st) (ifFunctionsByRef st') ref" for i
    using el [OF that(1,2)] that(3)
    by (auto simp: valueChanged_def split: option.splits)
  have flips: "(classList_contains (document st' ! i) ''markdoc__hidden''
               \<noteq> classList_contains (document st ! i) ''markdoc__hidden'')
             = (\<exists>ref f. blockRef (document st) i = Some ref
                  \<and> valueChanged (ifFunctionsByRef st) (ifFunctionsByRef st') ref
                  \<and> map_of (ifFunctionsByRef st) ref = Some f
                  \<and> classList_contains (document st ! i) ''markdoc__hidden'' = (\<not> fn_value f))"
    if i: "i < length (document st)" and p: "plainRef (document st) i" for i
  proof (cases "\<exists>ref. blockRef (document st) i = Some ref
                  \<and> valueChanged (ifFunctionsByRef st) (ifFunctionsByRef st') ref")
    case False
    with untouched [OF i p] show ?thesis by auto
  next
    case True
    then obtain ref f f' where b: "blockRef (document st) i = Some ref"
      and ch: "valueChanged (ifFunctionsByRef st) (ifFunctionsByRef st') ref"
      and f: "map_of (ifFunctionsByRef st) ref = Some f"
      and f': "map_of (ifFunctionsByRef st') ref = Some f'"
      and ne: "fn_value f \<noteq> fn_value f'"
      by (auto simp: valueChanged_def split: option.splits)
    from set_flag [OF i p b ch f']
    have "classList_contains (document st' ! i) ''markdoc__hidden'' = (\<not> fn_value f')" by simp
    with b ch f ne show ?thesis by auto
  qed
  from len set_flag untouched flips show ?thesis by blast
qed

text \<open>
  On the example page with \<^verbatim>\<open>linux-stable\<close> selected the pass hides the block of \<^verbatim>\<open>r1\<close>
  (element 3) and leaves the heading below it (element 4) as it was.
\<close>

theorem rerenderPageContent_minimal_diff_witness:
  "rerenderPageContent example_collaborators stale_renderer = Inr rerendered_renderer
   \<and> distinct (map fst (ifFunctionsByRef stale_renderer))
   \<and> plainRef (document stale_renderer) 3 \<and> plainRef (document stale_renderer) 4
   \<and> blockRef (document stale_renderer) 3 = Some ''r1''
   \<and> valueChanged (ifFunctionsByRef stale_renderer) (ifFunctionsByRef rerendered_renderer) ''r1''
   \<and> \<not> classList_contains (document stale_renderer ! 3) ''markdoc__hidden''
   \<and> classList_contains (document rerendered_renderer ! 3) ''markdoc__hidden''
   \<and> blockRef (document stale_renderer) 4 = None
   \<and> document rerendered_renderer ! 4 = document stale_renderer ! 4"
proof -
  have ok: "rerenderPageContent example_collaborators stale_renderer = Inr rerendered_renderer"
    by code_simp
  have keys: "distinct (map fst (ifFunctionsByRef stale_renderer))"
    by code_simp
  have len: "3 < length (document stale_renderer)" "4 < length (document stale_renderer)"
    by code_simp+
  have b3: "blockRef (document stale_renderer) 3 = Some ''r1''"
    and ch: "valueChanged (ifFunctionsByRef stale_renderer) (ifFunctionsByRef rerendered_renderer) ''r1''"
    and new: "map_of (ifFunctionsByRef rerendered_renderer) ''r1'' = Some (example_function False)"
    and shown: "\<not> classList_contains (document stale_renderer ! 3) ''markdoc__hidden''"
    and b4: "blockRef (document stale_renderer) 4 = None"
    and v: "\<not> fn_value (example_function False)"
    and p: "plainRef (document stale_renderer) 3" "plainRef (document stale_renderer) 4"
    by code_simp+
  note diff = rerenderPageContent_minimal_diff [OF ok keys]
  from diff len(1) p(1) b3 ch new
  have "classList_contains (document rerendered_renderer ! 3) ''markdoc__hidden''
          = (\<not> fn_value (example_function False))"
    by blast
  with v have hidden: "classList_contains (document rerendered_renderer ! 3) ''markdoc__hidden''"
    by simp
  from b4 have "\<forall>ref. blockRef (document stale_renderer) 4 = Some ref
      \<longrightarrow> \<not> valueChanged (ifFunctionsByRef stale_renderer) (ifFunctionsByRef rerendered_renderer) ref"
    by simp
  with diff len(2) p(2) have "document rerendered_renderer ! 4 = document stale_renderer ! 4"
    by blast
  with ok keys p b3 ch shown hidden b4 show ?thesis by simp
qed

text \<open>
  C3, as the claim states it, fails: a content block whose reference has no expression
  does not make \<^verbatim>\<open>rerenderPageContent\<close> throw. On the page below the block (element 3)
  carries the reference \<^verbatim>\<open>r1\<close>, the expression mapping is empty, and the pass returns
  with the page as it was.
\<close>

theorem rerenderPageContent_skips_block_without_expression:
  "blockRef (document orphan_renderer) 3 = Some ''r1''
   \<and> map_of (ifFunctionsByRef orphan_renderer) ''r1'' = None
   \<and> rerenderPageContent example_collaborators orphan_renderer = Inr orphan_renderer"
  by code_simp

text \<open>
  C3, amended. Once the expressions have been re-evaluated, \<^verbatim>\<open>rerenderPageContent\<close> throws
  exactly when some element of class \<^verbatim>\<open>markdoc__toggleable\<close> in the document has no
  \<^verbatim>\<open>data-if\<close> attribute or an empty one. Otherwise it returns, and a content block whose
  reference has no entry in the expression mapping, and is not the name of a property
  of \<^verbatim>\<open>Object.prototype\<close>, is skipped: the element is left as it was.
\<close>

theorem rerenderPageContent_throws_only_without_ref:
  assumes loop: "reresolve_loop (reresolveFunctionNode c) (selectedValsByPrefId st)
       (map fst (ifFunctionsByRef st)) (ifFunctionsByRef st) Map.empty = Inr (fns, nds)"
  shows
    "if \<exists>i < length (document st).
           attached (document st ! i)
           \<and> classList_contains (document st ! i) ''markdoc__toggleable''
           \<and> getAttribute (document st ! i) ''data-if'' \<in> {None, Some []}
     then \<exists>s. rerenderPageContent c st = Inl (NoRefOnToggleable, s)
     else \<exists>st'. rerenderPageContent c st = Inr st'
            \<and> (\<forall>i ref. i < length (document st) \<and> blockRef (document st) i = Some ref
                   \<and> map_of (ifFunctionsByRef st) ref = None
                   \<and> ref \<notin> set objectPrototypeProperties
                 \<longrightarrow> document st' ! i = document st ! i)"
proof -
  let ?togs = "getElementsByClassName (document st) ''markdoc__toggleable''"
  have d: "distinct ?togs" by (rule getElementsByClassName_distinct)
  have r: "\<forall>i \<in> set ?togs. i < length (document st)" by (simp add: getElementsByClassName_set)
  show ?thesis
  proof (cases "\<exists>i < length (document st).
           attached (document st ! i)
           \<and> classList_contains (document st ! i) ''markdoc__toggleable''
           \<and> getAttribute (document st ! i) ''data-if'' \<in> {None, Some []}")
    case True
    then have "\<exists>i \<in> set ?togs. getAttribute (document st ! i) ''data-if'' \<in> {None, Some []}"
      by (simp add: getElementsByClassName_set)
    from toggle_loop_throws [OF this d r, of nds] obtain doc' where
      "toggle_loop nds ?togs (document st) = Inl (NoRefOnToggleable, doc')" by blast
    with loop have "rerenderPageContent c st
        = Inl (NoRefOnToggleable, st\<lparr>ifFunctionsByRef := fns, document := doc'\<rparr>)"
      by (simp add: rerenderPageContent_def)
    with True show ?thesis by auto
  next
    case False
    then have "\<forall>i \<in> set ?togs. getAttribute (document st ! i) ''data-if'' \<notin> {None, Some []}"
      by (simp add: getElementsByClassName_set)
    from toggle_loop_succeeds [OF this d r, of nds] obtain doc' where
      tog: "toggle_loop nds ?togs (document st) = Inr doc'" by blast
    let ?st' = "st\<lparr>ifFunctionsByRef := fns, document := doc'\<rparr>"
    from tog loop have ok: "rerenderPageContent c st = Inr ?st'"
      by (simp add: rerenderPageContent_def)
    have "document ?st' ! i = document st ! i"
      if i: "i < length (document st)" and b: "blockRef (document st) i = Some ref"
        and none: "map_of (ifFunctionsByRef st) ref = None"
        and plain: "ref \<notin> set objectPrototypeProperties" for i ref
    proof -
      from none have "ref \<notin> set (map fst (ifFunctionsByRef st))"
        by (simp add: map_of_eq_None_iff)
      from reresolve_loop_other [OF loop this] have n: "nds ref = None" by simp
      from b have t: "attached (document st ! i)"
        "classList_contains (document st ! i) ''markdoc__toggleable''"
        and a: "getAttribute (document st ! i) ''data-if'' = Some ref"
        by (auto simp: blockRef_def split: if_splits)
      with i have "i \<in> set ?togs" by (simp add: getElementsByClassName_set)
      from toggle_loop_done [OF tog d this i] a n show ?thesis
        by (auto simp: toggled_plain [OF plain])
    qed
    with ok False show ?thesis by auto
  qed
qed

text \<open>On a page whose only toggleable element has no \<^verbatim>\<open>data-if\<close> the pass throws.\<close>

theorem rerenderPageContent_throws_only_without_ref_witness:
  "reresolve_loop (reresolveFunctionNode example_collaborators)
      (selectedValsByPrefId noref_renderer) (map fst (ifFunctionsByRef noref_renderer))
      (ifFunctionsByRef noref_renderer) Map.empty
     = Inr (ifFunctionsByRef noref_renderer, Map.empty)
   \<and> 0 < length (document noref_renderer)
   \<and> attached (document noref_renderer ! 0)
   \<and> classList_contains (document noref_renderer ! 0) ''markdoc__toggleable''
   \<and> getAttribute (document noref_renderer ! 0) ''data-if'' = None
   \<and> rerenderPageContent example_collaborators noref_renderer
       = Inl (NoRefOnToggleable, noref_renderer)"
proof -
  have loop: "reresolve_loop (reresolveFunctionNode example_collaborators)
      (selectedValsByPrefId noref_renderer) (map fst (ifFunctionsByRef noref_renderer))
      (ifFunctionsByRef noref_renderer) Map.empty
     = Inr (ifFunctionsByRef noref_renderer, Map.empty)"
    by (simp add: noref_renderer_def example_renderer_def example_collaborators_def
          example_function_def reevaluate_def)
  have el: "0 < length (document noref_renderer)"
    "attached (document noref_renderer ! 0)"
    "classList_contains (document noref_renderer ! 0) ''markdoc__toggleable''"
    "getAttribute (document noref_renderer ! 0) ''data-if'' = None"
    by code_simp+
  then have "\<exists>i < length (document noref_renderer).
           attached (document noref_renderer ! i)
           \<and> classList_contains (document noref_renderer ! i) ''markdoc__toggleable''
           \<and> getAttribute (document noref_renderer ! i) ''data-if'' \<in> {None, Some []}"
    by blast
  with rerenderPageContent_throws_only_without_ref [OF loop]
  have "\<exists>s. rerenderPageContent example_collaborators noref_renderer = Inl (NoRefOnToggleable, s)"
    by simp
  moreover have "finalState (rerenderPageContent example_collaborators noref_renderer) = noref_renderer"
    by code_simp
  ultimately have "rerenderPageContent example_collaborators noref_renderer
       = Inl (NoRefOnToggleable, noref_renderer)"
    by (auto simp: finalState_def)
  with loop el show ?thesis by simp
qed

section \<open>The navigation list\<close>

text \<open>
  C4, as the claim states it, fails: a jump from level 2 to level 4 opens one nested
  list, not two. On the page below the visible headings are an \<^verbatim>\<open>H2\<close> and an \<^verbatim>\<open>H4\<close>, and
  in the markup that \<^verbatim>\<open>populateRightNav\<close> assigns to the navigation container (element 3)
  one \<^verbatim>\<open><ul>\<close> stands before the entry of the \<^verbatim>\<open>H4\<close>.
\<close>

theorem populateRightNav_jump_opens_one_list:
  "mainContentHeaders (document jump_renderer) = [1, 2]
   \<and> \<not> elementIsHidden (document jump_renderer) 1
   \<and> \<not> elementIsHidden (document jump_renderer) 2
   \<and> headerLevel (document jump_renderer ! 1) = 2
   \<and> headerLevel (document jump_renderer ! 2) = 4
   \<and> getElementById (document jump_renderer) ''TableOfContents'' = Some 3
   \<and> populateRightNav jump_renderer = Inr jump_after
   \<and> innerHTML (document jump_after ! 3)
       = ''<ul><li><a href=\"#a\">A</a></li><ul><li><a href=\"#b\">B</a></li></ul>''"
  by code_simp

text \<open>
  C4, amended. When the document holds the navigation container, \<^verbatim>\<open>populateRightNav\<close>
  returns and the markup it has assigned to the container is the list built as follows.
  It compares the level of each visible heading with the level of the visible heading
  before it (with 2 for the first) and writes at most one list tag before the heading's
  entry: one \<^verbatim>\<open><ul>\<close> when the level is greater, by whatever amount, one \<^verbatim>\<open></ul>\<close> when it
  is smaller, and none when it is the same. Levels are not renormalized, and a jump
  from level 2 to level 4 opens one nested list.
\<close>

theorem populateRightNav_one_tag_per_change:
  assumes "getElementById (document st) ''TableOfContents'' = Some nav"
  shows "\<exists>st'. populateRightNav st = Inr st'
      \<and> innerHTML (document st' ! nav) =
         (let visible = filter (\<lambda>h. \<not> elementIsHidden (document st) h)
                          (mainContentHeaders (document st));
              levels = map (\<lambda>h. headerLevel (document st ! h)) visible
          in ''<ul>''
             @ concat (map (\<lambda>(previous, h).
                          (if headerLevel (document st ! h) > previous then ''<ul>''
                           else if headerLevel (document st ! h) < previous then ''</ul>''
                           else [])
                          @ navEntry (document st ! h))
                        (zip (2 # levels) visible))
             @ ''</ul>'')"
proof -
  from populateRightNav_markup [OF assms] obtain st' where
    "populateRightNav st = Inr st'"
    "document st' ! nav = (document st ! nav)\<lparr>innerHTML := rightNavHtml (document st)\<rparr>"
    by blast
  then have "populateRightNav st = Inr st'
      \<and> innerHTML (document st' ! nav) = rightNavHtml (document st)"
    by simp
  then show ?thesis unfolding rightNavHtml_tags [of "document st"] by blast
qed

theorem populateRightNav_one_tag_per_change_witness:
  "getElementById (document jump_renderer) ''TableOfContents'' = Some 3
   \<and> populateRightNav jump_renderer = Inr jump_after
   \<and> innerHTML (document jump_after ! 3)
       = ''<ul>'' @ navEntry (document jump_renderer ! 1)
         @ ''<ul>'' @ navEntry (document jump_renderer ! 2) @ ''</ul>''"
proof -
  have nav: "getElementById (document jump_renderer) ''TableOfContents'' = Some 3"
    and run: "populateRightNav jump_renderer = Inr jump_after"
    by code_simp+
  have list: "rightNavHtml (document jump_renderer)
       = ''<ul>'' @ navEntry (document jump_renderer ! 1)
         @ ''<ul>'' @ navEntry (document jump_renderer ! 2) @ ''</ul>''"
    by code_simp
  from populateRightNav_one_tag_per_change [OF nav] run
  have "innerHTML (document jump_after ! 3) = rightNavHtml (document jump_renderer)"
    unfolding rightNavHtml_tags [of "document jump_renderer"] by simp
  with nav run list show ?thesis by simp
qed

text \<open>
  C5. \<^verbatim>\<open>elementIsHidden\<close> holds of a heading exactly when the heading or one of its
  ancestors has the class \<^verbatim>\<open>markdoc__hidden\<close>. The scan of \<^verbatim>\<open>populateRightNav\<close> gives the
  same markup as the scan of the visible headings alone, from any level and any markup
  reached so far: a hidden heading adds no entry and does not change the nesting of the
  headings after it. So, when the document holds the navigation container,
  \<^verbatim>\<open>populateRightNav\<close> returns and the markup it has assigned to the container is the list
  of the visible headings. For the headings \<^verbatim>\<open>H2 A\<close>, \<^verbatim>\<open>H3 B\<close> (hidden), \<^verbatim>\<open>H2 C\<close> the list
  assigned to the container (element 4) holds the entries of A and C side by side and
  nothing of B.
\<close>

theorem populateRightNav_skips_hidden:
  "elementIsHidden doc h
     = (\<exists>a \<in> set (h # ancestors doc h). classList_contains (doc ! a) ''markdoc__hidden'')
   \<and> populateRightNav_loop doc headers lastSeenLevel html
       = populateRightNav_loop doc (filter (\<lambda>h. \<not> elementIsHidden doc h) headers)
           lastSeenLevel html
   \<and> (getElementById (document st) ''TableOfContents'' = Some nav
       \<longrightarrow> (\<exists>st'. populateRightNav st = Inr st'
              \<and> innerHTML (document st' ! nav)
                 = populateRightNav_loop (document st)
                     (filter (\<lambda>h. \<not> elementIsHidden (document st) h)
                        (mainContentHeaders (document st))) 2 ''<ul>''
                   @ ''</ul>''))
   \<and> populateRightNav headings_renderer = Inr headings_after
   \<and> innerHTML (document headings_after ! 4)
       = ''<ul><li><a href=\"#a\">A</a></li><li><a href=\"#c\">C</a></li></ul>''"
proof -
  have example: "populateRightNav headings_renderer = Inr headings_after"
    "innerHTML (document headings_after ! 4)
       = ''<ul><li><a href=\"#a\">A</a></li><li><a href=\"#c\">C</a></li></ul>''"
    by code_simp+
  have assigned: "\<exists>st'. populateRightNav st = Inr st'
              \<and> innerHTML (document st' ! nav)
                 = populateRightNav_loop (document st)
                     (filter (\<lambda>h. \<not> elementIsHidden (document st) h)
                        (mainContentHeaders (document st))) 2 ''<ul>''
                   @ ''</ul>''"
    if "getElementById (document st) ''TableOfContents'' = Some nav"
  proof -
    from populateRightNav_markup [OF that] obtain st' where
      "populateRightNav st = Inr st'"
      "document st' ! nav = (document st ! nav)\<lparr>innerHTML := rightNavHtml (document st)\<rparr>"
      by blast
    then have "populateRightNav st = Inr st'
        \<and> innerHTML (document st' ! nav) = rightNavHtml (document st)"
      by simp
    then show ?thesis unfolding rightNavHtml_visible [of "document st"] by blast
  qed
  note populateRightNav_loop_filter [of doc headers lastSeenLevel html]
    elementIsHidden_loop_Some [of doc h]
  with example assigned show ?thesis by (simp add: elementIsHidden_def)
qed

theorem populateRightNav_skips_hidden_witness:
  "getElementById (document headings_renderer) ''TableOfContents'' = Some 4
   \<and> mainContentHeaders (document headings_renderer) = [1, 2, 3]
   \<and> elementIsHidden (document headings_renderer) 2
   \<and> populateRightNav headings_renderer = Inr headings_after
   \<and> innerHTML (document headings_after ! 4)
       = populateRightNav_loop (document headings_renderer) [1, 3] 2 ''<ul>'' @ ''</ul>''"
proof -
  have nav: "getElementById (document headings_renderer) ''TableOfContents'' = Some 4"
    and heads: "mainContentHeaders (document headings_renderer) = [1, 2, 3]"
    and hidden: "elementIsHidden (document headings_renderer) 2"
    and visible: "filter (\<lambda>h. \<not> elementIsHidden (document headings_renderer) h) [1, 2, 3] = [1, 3]"
    and run: "populateRightNav headings_renderer = Inr headings_after"
    by code_simp+
  from populateRightNav_skips_hidden [of _ _ _ _ _ headings_renderer 4] nav
  obtain st' where "populateRightNav headings_renderer = Inr st'"
    "innerHTML (document st' ! 4)
       = populateRightNav_loop (document headings_renderer)
           (filter (\<lambda>h. \<not> elementIsHidden (document headings_renderer) h)
              (mainContentHeaders (document headings_renderer))) 2 ''<ul>''
         @ ''</ul>''"
    by blast
  with run heads visible
  have "innerHTML (document headings_after ! 4)
       = populateRightNav_loop (document headings_renderer) [1, 3] 2 ''<ul>'' @ ''</ul>''"
    by simp
  with nav heads hidden run show ?thesis by simp
qed

text \<open>
  C6. When no element of the document has the id \<^verbatim>\<open>TableOfContents\<close>, \<^verbatim>\<open>populateRightNav\<close>
  throws, and leaves the page as it was.
\<close>

theorem populateRightNav_without_container:
  "\<forall>e \<in> set (document st). ident e \<noteq> ''TableOfContents''
   \<Longrightarrow> populateRightNav st = Inl (CannotFindRightNav, st)"
  unfolding populateRightNav_def by (simp add: getElementById_None Let_def)

theorem populateRightNav_without_container_witness:
  "getElementById (document nonav_renderer) ''TableOfContents'' = None
   \<and> populateRightNav nonav_renderer = Inl (CannotFindRightNav, nonav_renderer)"
proof -
  have none: "getElementById (document nonav_renderer) ''TableOfContents'' = None"
    by code_simp
  have "\<forall>e \<in> set (document nonav_renderer). ident e \<noteq> ''TableOfContents''"
    by code_simp
  from populateRightNav_without_container [OF this] none show ?thesis by simp
qed

section \<open>Events that are not selections\<close>

text \<open>
  C7. \<^verbatim>\<open>handlePrefSelectionChange\<close> returns at once, with the state as it was, when the
  target of the event is not an element, or the element has no \<^verbatim>\<open>data-pref-id\<close>
  attribute or no \<^verbatim>\<open>data-option-id\<close> attribute (or an empty one): nothing is thrown, the
  selection is not written, and no re-render runs.
\<close>

theorem handlePrefSelectionChange_ignores:
  "target = NotAnElement
   \<or> (\<exists>node. target = AnElement node
         \<and> (getAttribute node ''data-pref-id'' \<in> {None, Some []}
            \<or> getAttribute node ''data-option-id'' \<in> {None, Some []}))
   \<Longrightarrow> handlePrefSelectionChange c target st = Inr st"
  unfolding handlePrefSelectionChange_def
  by (auto split: eventTarget.splits option.splits)

theorem handlePrefSelectionChange_ignores_witness:
  "handlePrefSelectionChange example_collaborators NotAnElement example_renderer
     = Inr example_renderer
   \<and> getAttribute (el ''H2'' ''a'' [] [] ''A'' 1) ''data-pref-id'' = None
   \<and> handlePrefSelectionChange example_collaborators (AnElement (el ''H2'' ''a'' [] [] ''A'' 1))
       example_renderer = Inr example_renderer
   \<and> getAttribute (el ''BUTTON'' [] [] [(''data-pref-id'', ''os'')] [] 1) ''data-option-id'' = None
   \<and> handlePrefSelectionChange example_collaborators
       (AnElement (el ''BUTTON'' [] [] [(''data-pref-id'', ''os'')] [] 1)) example_renderer
       = Inr example_renderer"
proof -
  have a: "getAttribute (el ''H2'' ''a'' [] [] ''A'' 1) ''data-pref-id'' = None"
    and b: "getAttribute (el ''BUTTON'' [] [] [(''data-pref-id'', ''os'')] [] 1) ''data-option-id'' = None"
    by code_simp+
  from a b
    handlePrefSelectionChange_ignores [of NotAnElement example_collaborators example_renderer]
    handlePrefSelectionChange_ignores
      [of "AnElement (el ''H2'' ''a'' [] [] ''A'' 1)" example_collaborators example_renderer]
    handlePrefSelectionChange_ignores
      [of "AnElement (el ''BUTTON'' [] [] [(''data-pref-id'', ''os'')] [] 1)"
          example_collaborators example_renderer]
  show ?thesis by simp
qed

section \<open>Re-evaluation\<close>




section \<open>The keys of the expression mapping\<close>



section \<open>The selection after the chooser is re-rendered\<close>



end
